theory Spec2Isabelle
  imports Complex_Main "HOL-Library.Multiset"
begin

section \<open>Sensitivity mapping: data model\<close>

text \<open>
  The embedding follows \<^verbatim>\<open>autofit/non_linear/grid/sensitivity.py\<close>. Python floats are
  idealised as \<^typ>\<open>real\<close>; rounding is not modelled. Generators are modelled by the
  sequence they yield; a generator whose first step raises is the error value.
  Exceptions are values of the type \<open>error\<close>, on the left of a sum.
\<close>

datatype error = ConfigurationError | FitException

text \<open>The external \<^verbatim>\<open>Result\<close>: the code reads only its \<^verbatim>\<open>log_likelihood\<close>.\<close>

record Result =
  log_likelihood :: real

text \<open>\<^verbatim>\<open>class JobResult\<close>: the two fit results of one comparison.\<close>

record JobResult =
  result :: Result
  perturbed_result :: Result

text \<open>
  The path descriptor, as the code constructs it: \<^verbatim>\<open>Paths(name=, tag=, path_prefix=,
  remove_files=)\<close>. The class is defined outside this module; its property
  \<^verbatim>\<open>non_linear_tag\<close>, which \<^verbatim>\<open>_searches\<close> reads from the template, is a parameter
  \<open>nlt\<close> of the functions below.
\<close>

record Paths =
  name :: string
  tag :: string
  path_prefix :: string
  remove_files :: bool

record NonLinearSearch =
  paths :: Paths

text \<open>A prior is its unit-to-physical transform \<^verbatim>\<open>value_for\<close>.\<close>

record Prior =
  value_for :: "real \<Rightarrow> real"

text \<open>
  \<^verbatim>\<open>AbstractPriorModel\<close>, with the three members the code uses. \<open>prior_count\<close> and
  \<open>prior_tuples\<close> are separate members, as in the code: nothing forces the number of
  pairs to equal the count.
\<close>

record 'i AbstractPriorModel =
  prior_count :: nat
  prior_tuples :: "(string \<times> Prior) list"
  instance_from_unit_vector :: "real list \<Rightarrow> 'i"

text \<open>
  \<^verbatim>\<open>CollectionPriorModel()\<close> and \<^verbatim>\<open>ModelInstance()\<close> start empty and receive attributes by
  assignment: an ordered mapping from attribute name to value.
\<close>

fun setattr :: "(string \<times> 'a) list \<Rightarrow> string \<Rightarrow> 'a \<Rightarrow> (string \<times> 'a) list" where
  "setattr [] k v = [(k, v)]"
| "setattr ((k', v') # kvs) k v =
     (if k' = k then (k, v) # kvs else (k', v') # setattr kvs k v)"

text \<open>Python's \<^verbatim>\<open>sep.join(strings)\<close>.\<close>

fun join :: "string \<Rightarrow> string list \<Rightarrow> string" where
  "join sep [] = []"
| "join sep [x] = x"
| "join sep (x # y # ys) = x @ sep @ join sep (y # ys)"

section \<open>JobResult and Job\<close>

definition JobResult_init :: "Result \<Rightarrow> Result \<Rightarrow> JobResult" where
  "JobResult_init r pr = \<lparr>result = r, perturbed_result = pr\<rparr>"

definition log_likelihood_difference :: "JobResult \<Rightarrow> real" where
  "log_likelihood_difference jr =
     log_likelihood (perturbed_result jr) - log_likelihood (result jr)"

text \<open>
  Modelled from the spec: \<^verbatim>\<open>NonLinearSearch.copy_with_paths\<close> is defined outside this
  module; the spec gives it as producing an independently namespaced, otherwise
  identical search configuration.
\<close>

definition copy_with_paths :: "NonLinearSearch \<Rightarrow> Paths \<Rightarrow> NonLinearSearch" where
  "copy_with_paths s p = s\<lparr>paths := p\<rparr>"

record ('i, 'an) Job =
  analysis :: 'an
  model :: "'i AbstractPriorModel"
  perturbation_model :: "'i AbstractPriorModel"
  search :: NonLinearSearch
  perturbed_search :: NonLinearSearch

text \<open>\<^verbatim>\<open>Job.__init__\<close>.\<close>

definition Job_init ::
  "'an \<Rightarrow> 'i AbstractPriorModel \<Rightarrow> 'i AbstractPriorModel \<Rightarrow> NonLinearSearch \<Rightarrow> ('i, 'an) Job"
where
  "Job_init an m pm s =
     (let p = paths s in
      \<lparr>analysis = an, model = m, perturbation_model = pm, search = s,
       perturbed_search = copy_with_paths s
         \<lparr>name = name p, tag = tag p @ ''[perturbed]'',
          path_prefix = path_prefix p, remove_files = remove_files p\<rparr>\<rparr>)"

text \<open>
  \<^verbatim>\<open>Job.perform\<close>. The search's \<^verbatim>\<open>fit\<close> is external: a parameter, which may fail. A
  failing first fit ends \<open>perform\<close> before the second fit is made.
\<close>

definition perform ::
  "(NonLinearSearch \<Rightarrow> (string \<times> 'i AbstractPriorModel) list \<Rightarrow> 'an \<Rightarrow> error + Result)
   \<Rightarrow> ('i, 'an) Job \<Rightarrow> error + JobResult"
where
  "perform fit j =
     (let base_model = setattr [] ''model'' (Job.model j) in
      case fit (Job.search j) base_model (analysis j) of
        Inl e \<Rightarrow> Inl e
      | Inr r \<Rightarrow>
          (let perturbed_model =
                 setattr (setattr [] ''perturbation'' (Job.perturbation_model j))
                   ''model'' (Job.model j) in
           case fit (perturbed_search j) perturbed_model (analysis j) of
             Inl e \<Rightarrow> Inl e
           | Inr pr \<Rightarrow> Inr (JobResult_init r pr)))"

section \<open>Sensitivity\<close>

text \<open>\<^verbatim>\<open>step_size: Union[Tuple[float], float]\<close>.\<close>

datatype step_size = Scalar real | PerDim "real list"

record ('i, 'img, 'an) Sensitivity =
  instance' :: 'i
  model :: "'i AbstractPriorModel"
  search :: NonLinearSearch
  analysis_class :: "'img \<Rightarrow> 'an"
  step_size :: step_size
  perturbation_model :: "'i AbstractPriorModel"
  image_function :: "(string \<times> 'i) list \<Rightarrow> 'img"
  number_of_cores :: int

text \<open>
  \<^verbatim>\<open>Sensitivity.__init__\<close>: the arguments are stored as they come; nothing is checked.
  (The defaults of the last two arguments are \<open>0.1\<close> and \<open>2\<close>.)
\<close>

definition Sensitivity_init ::
  "'i \<Rightarrow> 'i AbstractPriorModel \<Rightarrow> 'i AbstractPriorModel \<Rightarrow> ((string \<times> 'i) list \<Rightarrow> 'img)
   \<Rightarrow> ('img \<Rightarrow> 'an) \<Rightarrow> NonLinearSearch \<Rightarrow> step_size \<Rightarrow> int \<Rightarrow> ('i, 'img, 'an) Sensitivity"
where
  "Sensitivity_init inst m pm imf ac srch st n =
     \<lparr>instance' = inst, model = m, search = srch, analysis_class = ac, step_size = st,
      perturbation_model = pm, image_function = imf, number_of_cores = n\<rparr>"

text \<open>
  \<^verbatim>\<open>Sensitivity._lists\<close>. The enumerator \<^verbatim>\<open>make_lists\<close> is imported from the module
  \<^verbatim>\<open>grid_search\<close>; here it is the parameter \<open>mk\<close>, which may fail.
\<close>

definition lists' ::
  "(nat \<Rightarrow> step_size \<Rightarrow> error + real list list) \<Rightarrow> ('i, 'img, 'an) Sensitivity
   \<Rightarrow> error + real list list"
where
  "lists' mk s = mk (prior_count (Sensitivity.perturbation_model s)) (step_size s)"

text \<open>
  The body of the outer loop of \<^verbatim>\<open>Sensitivity._labels\<close> for one hypercube vector. The
  formatting of a float inside the f-string is the parameter \<open>str\<close>.
\<close>

definition label_strings ::
  "(real \<Rightarrow> string) \<Rightarrow> (string \<times> Prior) list \<Rightarrow> real list \<Rightarrow> string list"
where
  "label_strings str pts vec =
     fold (\<lambda>(v, (path, prior)) strings. strings @ [path @ ''_'' @ str (value_for prior v)])
       (zip vec pts) []"

definition label :: "(real \<Rightarrow> string) \<Rightarrow> (string \<times> Prior) list \<Rightarrow> real list \<Rightarrow> string" where
  "label str pts vec = join ''_'' (label_strings str pts vec)"

definition labels ::
  "(nat \<Rightarrow> step_size \<Rightarrow> error + real list list) \<Rightarrow> (real \<Rightarrow> string)
   \<Rightarrow> ('i, 'img, 'an) Sensitivity \<Rightarrow> error + string list"
where
  "labels mk str s =
     (case lists' mk s of
        Inl e \<Rightarrow> Inl e
      | Inr ls \<Rightarrow> Inr (map (label str (prior_tuples (Sensitivity.perturbation_model s))) ls))"

text \<open>\<^verbatim>\<open>Sensitivity._perturbation_instances\<close>.\<close>

definition perturbation_instances ::
  "(nat \<Rightarrow> step_size \<Rightarrow> error + real list list) \<Rightarrow> ('i, 'img, 'an) Sensitivity
   \<Rightarrow> error + 'i list"
where
  "perturbation_instances mk s =
     (case lists' mk s of
        Inl e \<Rightarrow> Inl e
      | Inr ls \<Rightarrow>
          Inr (map (instance_from_unit_vector (Sensitivity.perturbation_model s)) ls))"

text \<open>\<^verbatim>\<open>Sensitivity._search_instance\<close>.\<close>

definition search_instance :: "('i, 'img, 'an) Sensitivity \<Rightarrow> string \<Rightarrow> NonLinearSearch" where
  "search_instance s name_path =
     (let p = paths (Sensitivity.search s) in
      copy_with_paths (Sensitivity.search s)
        \<lparr>name = name_path, tag = tag p,
         path_prefix = path_prefix p, remove_files = remove_files p\<rparr>)"

text \<open>\<^verbatim>\<open>Sensitivity._searches\<close>; \<^verbatim>\<open>"{}/{}/{}/{}".format\<close> of four strings.\<close>

definition name_path_for :: "(Paths \<Rightarrow> string) \<Rightarrow> Paths \<Rightarrow> string \<Rightarrow> string" where
  "name_path_for nlt p lbl = name p @ ''/'' @ tag p @ ''/'' @ nlt p @ ''/'' @ lbl"

definition searches ::
  "(nat \<Rightarrow> step_size \<Rightarrow> error + real list list) \<Rightarrow> (real \<Rightarrow> string) \<Rightarrow> (Paths \<Rightarrow> string)
   \<Rightarrow> ('i, 'img, 'an) Sensitivity \<Rightarrow> error + NonLinearSearch list"
where
  "searches mk str nlt s =
     (case labels mk str s of
        Inl e \<Rightarrow> Inl e
      | Inr lbls \<Rightarrow>
          Inr (map (\<lambda>lbl.
                 let p = paths (Sensitivity.search s);
                     name_path = name_path_for nlt p lbl
                 in search_instance s name_path) lbls))"

text \<open>
  \<^verbatim>\<open>Sensitivity._make_jobs\<close>: the zip of the two generators. Both draw from \<open>_lists\<close>, so
  an error of the enumerator is raised when the first element is requested, before any
  \<open>Job\<close> exists.
\<close>

definition make_jobs ::
  "(nat \<Rightarrow> step_size \<Rightarrow> error + real list list) \<Rightarrow> (real \<Rightarrow> string) \<Rightarrow> (Paths \<Rightarrow> string)
   \<Rightarrow> ('i, 'img, 'an) Sensitivity \<Rightarrow> error + ('i, 'an) Job list"
where
  "make_jobs mk str nlt s =
     (case perturbation_instances mk s of
        Inl e \<Rightarrow> Inl e
      | Inr pis \<Rightarrow>
          (case searches mk str nlt s of
             Inl e \<Rightarrow> Inl e
           | Inr ss \<Rightarrow>
               Inr (map (\<lambda>(perturbation_instance, srch).
                      let inst = setattr (setattr [] ''model'' (instance' s))
                                   ''perturbation'' perturbation_instance;
                          image = image_function s inst
                      in Job_init (analysis_class s image) (Sensitivity.model s)
                           (Sensitivity.perturbation_model s) srch)
                    (zip pis ss))))"

text \<open>
  \<^verbatim>\<open>Sensitivity.run\<close>. The executor \<^verbatim>\<open>Process.run_jobs\<close> is external: the parameter
  \<open>run_jobs\<close> receives the job generator and the worker count and yields results or
  fails. The loop appends each yielded result.
\<close>

definition run ::
  "((error + ('i, 'an) Job list) \<Rightarrow> int \<Rightarrow> error + JobResult list)
   \<Rightarrow> (nat \<Rightarrow> step_size \<Rightarrow> error + real list list) \<Rightarrow> (real \<Rightarrow> string) \<Rightarrow> (Paths \<Rightarrow> string)
   \<Rightarrow> ('i, 'img, 'an) Sensitivity \<Rightarrow> error + JobResult list"
where
  "run run_jobs mk str nlt s =
     (case run_jobs (make_jobs mk str nlt s) (number_of_cores s) of
        Inl e \<Rightarrow> Inl e
      | Inr yielded \<Rightarrow> Inr (fold (\<lambda>r results. results @ [r]) yielded []))"

section \<open>The Grid Enumerator\<close>

text \<open>
  Modelled from the spec: the points of one dimension, \<open>step, 2 * step, ...\<close>, of
  which there are \<open>floor (1 / step)\<close>. The enumerator \<^verbatim>\<open>make_lists\<close> (module
  \<^verbatim>\<open>grid_search\<close>) is missing from the sources, and so are its parts.
\<close>

definition axis_points :: "real \<Rightarrow> real list" where
  "axis_points st = map (\<lambda>k. real k * st) [1..<Suc (nat \<lfloor>1 / st\<rfloor>)]"

text \<open>
  Modelled from the spec: the cartesian product across dimensions, the first dimension
  in the outer loop.
\<close>

fun cartesian :: "'a list list \<Rightarrow> 'a list list" where
  "cartesian [] = [[]]"
| "cartesian (xs # xss) = concat (map (\<lambda>x. map ((#) x) (cartesian xss)) xs)"

text \<open>
  Modelled from the spec: the step size is one scalar applied to every dimension or a
  sequence of one scalar per dimension; a sequence of another length is a
  dimensionality mismatch, a configuration error.
\<close>

definition step_sizes :: "nat \<Rightarrow> step_size \<Rightarrow> error + real list" where
  "step_sizes D st =
     (case st of
        Scalar x \<Rightarrow> Inr (replicate D x)
      | PerDim xs \<Rightarrow> if length xs = D then Inr xs else Inl ConfigurationError)"

text \<open>
  Modelled from the spec: \<^verbatim>\<open>make_lists\<close>, the Grid Enumerator, which is missing from the
  sources. A step size \<open>\<le> 0\<close> or \<open>> 1\<close> is a configuration error; otherwise the
  result is the ordered product of the per-dimension points.
\<close>

definition make_lists :: "nat \<Rightarrow> step_size \<Rightarrow> error + real list list" where
  "make_lists D st =
     (case step_sizes D st of
        Inl e \<Rightarrow> Inl e
      | Inr xs \<Rightarrow>
          if list_ex (\<lambda>x. x \<le> 0 \<or> 1 < x) xs then Inl ConfigurationError
          else Inr (cartesian (map axis_points xs)))"

text \<open>Lexicographic order on coordinates, the first component the most significant.\<close>

fun lex_less :: "real list \<Rightarrow> real list \<Rightarrow> bool" where
  "lex_less (x # xs) (y # ys) = (x < y \<or> (x = y \<and> lex_less xs ys))"
| "lex_less _ _ = False"

section \<open>The parallel executor\<close>

text \<open>
  Modelled from the spec: the results of a batch are collected in the order in which
  they are yielded. The spec leaves the policy for a failing job to the implementer;
  here the first failing job fails the batch with its error, so that no failure is
  dropped silently.
\<close>

fun collect :: "(error + 'a) list \<Rightarrow> error + 'a list" where
  "collect [] = Inr []"
| "collect (Inl e # rest) = Inl e"
| "collect (Inr x # rest) = (case collect rest of Inl e \<Rightarrow> Inl e | Inr xs \<Rightarrow> Inr (x # xs))"

text \<open>
  Modelled from the spec: \<^verbatim>\<open>Process.run_jobs\<close> (module \<^verbatim>\<open>parallel\<close>) is missing from the
  sources. The spec gives it a worker count of at least 2, fewer being a configuration
  error raised before any job is constructed or dispatched; every submitted job is
  executed exactly once and the results are drained as the jobs complete, in an order
  the executor does not fix. The order of completion is the parameter \<open>completion\<close>, a
  rearrangement of the submitted jobs. An error of the job generator is passed on.
\<close>

definition Process_run_jobs ::
  "(('i, 'an) Job list \<Rightarrow> ('i, 'an) Job list)
   \<Rightarrow> (NonLinearSearch \<Rightarrow> (string \<times> 'i AbstractPriorModel) list \<Rightarrow> 'an \<Rightarrow> error + Result)
   \<Rightarrow> (error + ('i, 'an) Job list) \<Rightarrow> int \<Rightarrow> error + JobResult list"
where
  "Process_run_jobs completion fit gen n =
     (if n < 2 then Inl ConfigurationError
      else case gen of
             Inl e \<Rightarrow> Inl e
           | Inr jobs \<Rightarrow> collect (map (perform fit) (completion jobs)))"

section \<open>The label, as the specification words it\<close>

text \<open>
  The physical values of a coordinate: each component passed through the
  \<^verbatim>\<open>value_for\<close> of the prior at the same position.
\<close>

definition physical_values :: "(string \<times> Prior) list \<Rightarrow> real list \<Rightarrow> real list" where
  "physical_values pts vec = map (\<lambda>(v, (path, prior)). value_for prior v) (zip vec pts)"

text \<open>
  The label of the specification, over the first \<open>n\<close> dimensions in declared order:
  the token \<^verbatim>\<open>"{path}_{physical_value}"\<close> of the first dimension, followed, for every
  further dimension, by an underscore and that dimension's token. It is written with
  plain concatenation, apart from the code's \<open>join\<close>.
\<close>

definition label_spec ::
  "(real \<Rightarrow> string) \<Rightarrow> nat \<Rightarrow> (string \<times> Prior) list \<Rightarrow> real list \<Rightarrow> string"
where
  "label_spec str n pts vec =
     (case map (\<lambda>d. fst (pts ! d) @ [CHR ''_''] @ str (value_for (snd (pts ! d)) (vec ! d)))
             [0..<n] of
        [] \<Rightarrow> []
      | token # tokens \<Rightarrow> token @ concat (map (\<lambda>t. CHR ''_'' # t) tokens))"

section \<open>Example configurations\<close>

text \<open>
  A prior mapping the unit interval linearly onto \<open>[lo, hi]\<close>; with \<open>lo = hi\<close> every
  unit value has the same physical value.
\<close>

definition linear_prior :: "real \<Rightarrow> real \<Rightarrow> Prior" where
  "linear_prior lo hi = \<lparr>value_for = (\<lambda>u. lo + u * (hi - lo))\<rparr>"

text \<open>Float formatting on the few values the examples produce.\<close>

definition str_ex :: "real \<Rightarrow> string" where
  "str_ex x =
     (if x = 1 then ''1.0'' else if x = 2 then ''2.0'' else if x = 3 then ''3.0''
      else ''nan'')"

definition nlt_ex :: "Paths \<Rightarrow> string" where
  "nlt_ex p = ''settings''"

text \<open>
  A base model without priors, a perturbation model with \<open>D\<close> counted priors and the
  pairs \<open>pts\<close> (instances are the unit vectors themselves), and a search template.
\<close>

definition model_ex :: "real list AbstractPriorModel" where
  "model_ex = \<lparr>prior_count = 0, prior_tuples = [], instance_from_unit_vector = (\<lambda>v. v)\<rparr>"

definition perturbation_ex :: "nat \<Rightarrow> (string \<times> Prior) list \<Rightarrow> real list AbstractPriorModel" where
  "perturbation_ex D pts =
     \<lparr>prior_count = D, prior_tuples = pts, instance_from_unit_vector = (\<lambda>v. v)\<rparr>"

definition search_ex :: NonLinearSearch where
  "search_ex =
     \<lparr>paths = \<lparr>name = ''phase'', tag = ''tag'', path_prefix = ''prefix'', remove_files = False\<rparr>\<rparr>"

text \<open>
  A run over these: the image is the sum of all instance components, the analysis is
  the image.
\<close>

definition sens_ex ::
  "nat \<Rightarrow> (string \<times> Prior) list \<Rightarrow> step_size \<Rightarrow> int \<Rightarrow> (real list, real, real) Sensitivity"
where
  "sens_ex D pts st n =
     Sensitivity_init [0] model_ex (perturbation_ex D pts)
       (\<lambda>inst. sum_list (concat (map snd inst))) (\<lambda>img. img) search_ex st n"

text \<open>A fit whose log-likelihood is the analysis value plus the number of sub-models.\<close>

definition fit_ex ::
  "NonLinearSearch \<Rightarrow> (string \<times> real list AbstractPriorModel) list \<Rightarrow> real \<Rightarrow> error + Result"
where
  "fit_ex s m a = Inr \<lparr>log_likelihood = a + real (length m)\<rparr>"

text \<open>
  The executor with the two completion orders used in the examples: results in
  submission order, and results in reverse order of submission.
\<close>

definition executor_in_order ::
  "(NonLinearSearch \<Rightarrow> (string \<times> 'i AbstractPriorModel) list \<Rightarrow> 'an \<Rightarrow> error + Result)
   \<Rightarrow> (error + ('i, 'an) Job list) \<Rightarrow> int \<Rightarrow> error + JobResult list"
where
  "executor_in_order fit gen n = Process_run_jobs (\<lambda>jobs. jobs) fit gen n"

definition executor_reversed ::
  "(NonLinearSearch \<Rightarrow> (string \<times> 'i AbstractPriorModel) list \<Rightarrow> 'an \<Rightarrow> error + Result)
   \<Rightarrow> (error + ('i, 'an) Job list) \<Rightarrow> int \<Rightarrow> error + JobResult list"
where
  "executor_reversed fit gen n = Process_run_jobs rev fit gen n"

section \<open>Properties of JobResult\<close>

text \<open>
  C4: the log-likelihood difference of a job result built from a baseline result and a
  perturbed result is the perturbed log-likelihood minus the baseline log-likelihood;
  baseline -12.5 and perturbed -9.0 give 3.5.
\<close>

theorem log_likelihood_difference_eq:
  "log_likelihood_difference (JobResult_init r pr) = log_likelihood pr - log_likelihood r
   \<and> log_likelihood_difference
       (JobResult_init \<lparr>log_likelihood = - 12.5\<rparr> \<lparr>log_likelihood = - 9.0\<rparr>) = 3.5"
  by (simp add: log_likelihood_difference_def JobResult_init_def)

section \<open>Auxiliary facts\<close>

lemma fold_snoc_map: "fold (\<lambda>x acc. acc @ [f x]) xs acc = acc @ map f xs"
  by (induction xs arbitrary: acc) simp_all

lemma fold_label_strings:
  "fold (\<lambda>(v, (path, prior)) strings. strings @ [g v path prior]) zs acc
     = acc @ map (\<lambda>(v, (path, prior)). g v path prior) zs"
  by (induction zs arbitrary: acc) auto

lemma label_strings_map:
  "label_strings str pts vec =
     map (\<lambda>(v, (path, prior)). path @ ''_'' @ str (value_for prior v)) (zip vec pts)"
  unfolding label_strings_def by (simp only: fold_label_strings append_Nil)

lemma run_is_executor_outcome:
  "run run_jobs mk str nlt s = run_jobs (make_jobs mk str nlt s) (number_of_cores s)"
  by (simp add: run_def fold_snoc_map split: sum.splits)

lemma labels_Inr:
  "lists' mk s = Inr cs \<Longrightarrow>
   labels mk str s = Inr (map (label str (prior_tuples (Sensitivity.perturbation_model s))) cs)"
  by (simp add: labels_def)

lemma labels_Inl: "lists' mk s = Inl e \<Longrightarrow> labels mk str s = Inl e"
  by (simp add: labels_def)

lemma make_jobs_Inl: "lists' mk s = Inl e \<Longrightarrow> make_jobs mk str nlt s = Inl e"
  by (simp add: make_jobs_def perturbation_instances_def)

lemma make_jobs_Inr:
  assumes "lists' mk s = Inr cs"
  shows "make_jobs mk str nlt s =
     Inr (map (\<lambda>c. Job_init
            (analysis_class s (image_function s
               [(''model'', instance' s),
                (''perturbation'',
                 instance_from_unit_vector (Sensitivity.perturbation_model s) c)]))
            (Sensitivity.model s) (Sensitivity.perturbation_model s)
            (search_instance s
               (name_path_for nlt (paths (Sensitivity.search s))
                  (label str (prior_tuples (Sensitivity.perturbation_model s)) c)))) cs)"
proof -
  have z: "zip (map f cs) (map g cs) = map (\<lambda>c. (f c, g c)) cs" for f :: "real list \<Rightarrow> 'i" and g :: "real list \<Rightarrow> NonLinearSearch"
    by (induction cs) simp_all
  show ?thesis
    using assms
    by (simp add: make_jobs_def perturbation_instances_def searches_def labels_def z comp_def)
qed

lemma axis_points_half: "axis_points (1/2) = [1/2, 1]"
  by (simp add: axis_points_def upt_rec)

lemma make_lists_half1: "make_lists (Suc 0) (Scalar (1/2)) = Inr [[1/2], [1]]"
  by (simp add: make_lists_def step_sizes_def axis_points_half)

lemma lists_ex: "lists' make_lists (sens_ex (Suc 0) pts (Scalar (1/2)) n) = Inr [[1/2], [1]]"
  by (simp add: lists'_def sens_ex_def Sensitivity_init_def perturbation_ex_def make_lists_half1)

lemma cores_ex: "number_of_cores (sens_ex D pts st n) = n"
  by (simp add: sens_ex_def Sensitivity_init_def)

lemma label_ex_linear:
  "label str_ex [(''x'', linear_prior 0 2)] [1/2] = ''x_1.0''"
  "label str_ex [(''x'', linear_prior 0 2)] [1] = ''x_2.0''"
  by (simp_all add: label_def label_strings_map linear_prior_def str_ex_def)

lemma label_ex_const:
  "label str_ex [(''x'', linear_prior 3 3)] [u] = ''x_3.0''"
  by (simp add: label_def label_strings_map linear_prior_def str_ex_def)

lemma Job_init_sel:
  "analysis (Job_init a m pm srch) = a"
  "Job.model (Job_init a m pm srch) = m"
  "Job.perturbation_model (Job_init a m pm srch) = pm"
  "Job.search (Job_init a m pm srch) = srch"
  "perturbed_search (Job_init a m pm srch) =
     \<lparr>paths = \<lparr>name = name (paths srch), tag = tag (paths srch) @ ''[perturbed]'',
        path_prefix = path_prefix (paths srch), remove_files = remove_files (paths srch)\<rparr>\<rparr>"
  by (simp_all add: Job_init_def Let_def copy_with_paths_def)

lemma perform_ex:
  "perform fit_ex (Job_init a m pm srch)
     = Inr \<lparr>result = \<lparr>log_likelihood = a + 1\<rparr>, perturbed_result = \<lparr>log_likelihood = a + 2\<rparr>\<rparr>"
  by (simp add: perform_def fit_ex_def Job_init_sel JobResult_init_def)

lemma jobs_ex:
  "make_jobs make_lists str nlt (sens_ex (Suc 0) pts (Scalar (1/2)) n) =
     Inr [Job_init (1/2) model_ex (perturbation_ex (Suc 0) pts)
            (search_instance (sens_ex (Suc 0) pts (Scalar (1/2)) n)
               (name_path_for nlt (paths search_ex) (label str pts [1/2]))),
          Job_init 1 model_ex (perturbation_ex (Suc 0) pts)
            (search_instance (sens_ex (Suc 0) pts (Scalar (1/2)) n)
               (name_path_for nlt (paths search_ex) (label str pts [1])))]"
  by (simp add: make_jobs_Inr [OF lists_ex]) (simp add: sens_ex_def Sensitivity_init_def perturbation_ex_def)

lemma make_lists_step_two: "make_lists (Suc 0) (Scalar 2) = Inl ConfigurationError"
  by (simp add: make_lists_def step_sizes_def)

lemma search_instance_paths:
  "paths (search_instance s np) =
     \<lparr>name = np, tag = tag (paths (Sensitivity.search s)),
      path_prefix = path_prefix (paths (Sensitivity.search s)),
      remove_files = remove_files (paths (Sensitivity.search s))\<rparr>"
  by (simp add: search_instance_def Let_def copy_with_paths_def)

section \<open>Properties of the Grid Enumerator\<close>

lemma length_cartesian: "length (cartesian xss) = prod_list (map length xss)"
proof (induction xss)
  case Nil
  show ?case by simp
next
  case (Cons xs xss)
  have "length (concat (map (\<lambda>x. map ((#) x) (cartesian xss)) xs))
      = length xs * length (cartesian xss)"
    by (induction xs) simp_all
  with Cons show ?case by simp
qed

lemma set_cartesian:
  "set (cartesian xss) = {c. length c = length xss \<and> (\<forall>d<length xss. c ! d \<in> set (xss ! d))}"
proof (induction xss)
  case Nil
  show ?case by auto
next
  case (Cons xs xss)
  show ?case
  proof (intro set_eqI iffI)
    fix c assume "c \<in> set (cartesian (xs # xss))"
    then obtain x r where c: "c = x # r" and x: "x \<in> set xs" and r: "r \<in> set (cartesian xss)"
      by auto
    from r Cons have lr: "length r = length xss" and nr: "\<forall>d<length xss. r ! d \<in> set (xss ! d)"
      by auto
    have "\<forall>d<length (xs # xss). c ! d \<in> set ((xs # xss) ! d)"
      using c x nr by (auto simp: nth_Cons split: nat.splits)
    with c lr show "c \<in> {c. length c = length (xs # xss) \<and> (\<forall>d<length (xs # xss). c ! d \<in> set ((xs # xss) ! d))}"
      by simp
  next
    fix c assume "c \<in> {c. length c = length (xs # xss) \<and> (\<forall>d<length (xs # xss). c ! d \<in> set ((xs # xss) ! d))}"
    then have l: "length c = Suc (length xss)" and n: "\<forall>d<Suc (length xss). c ! d \<in> set ((xs # xss) ! d)"
      by auto
    from l obtain x r where c: "c = x # r" and lr: "length r = length xss"
      by (cases c) auto
    from n c have x: "x \<in> set xs" by (auto dest: spec [of _ 0])
    have "\<forall>d<length xss. r ! d \<in> set (xss ! d)"
    proof (intro allI impI)
      fix d assume "d < length xss"
      with n have "c ! Suc d \<in> set ((xs # xss) ! Suc d)" by blast
      with c show "r ! d \<in> set (xss ! d)" by simp
    qed
    with lr Cons have "r \<in> set (cartesian xss)" by simp
    with c x show "c \<in> set (cartesian (xs # xss))" by auto
  qed
qed

lemma sorted_cartesian:
  "\<forall>xs\<in>set xss. sorted_wrt (<) xs \<Longrightarrow> sorted_wrt lex_less (cartesian xss)"
proof (induction xss)
  case Nil
  show ?case by simp
next
  case (Cons xs xss)
  then have rest: "sorted_wrt lex_less (cartesian xss)" and xs: "sorted_wrt (<) xs"
    by simp_all
  from xs have "sorted_wrt lex_less (concat (map (\<lambda>x. map ((#) x) (cartesian xss)) xs))"
  proof (induction xs)
    case Nil
    show ?case by simp
  next
    case (Cons x xs)
    have "sorted_wrt lex_less (map ((#) x) (cartesian xss))"
      using rest by (simp add: sorted_wrt_map)
    with Cons show ?case
      by (auto simp: sorted_wrt_append)
  qed
  then show ?case by simp
qed

lemma length_axis_points: "length (axis_points x) = nat \<lfloor>1 / x\<rfloor>"
  by (simp add: axis_points_def del: upt_Suc)

lemma set_axis_points:
  "set (axis_points x) = {real k * x |k. 1 \<le> k \<and> k \<le> nat \<lfloor>1 / x\<rfloor>}"
  by (auto simp: axis_points_def)

lemma sorted_axis_points: "0 < x \<Longrightarrow> sorted_wrt (<) (axis_points x)"
proof -
  assume pos: "0 < x"
  have "sorted_wrt (\<lambda>a b. real a * x < real b * x) [1..<Suc (nat \<lfloor>1 / x\<rfloor>)]"
    by (rule sorted_wrt_mono_rel [OF _ sorted_wrt_upt]) (simp add: pos)
  then show ?thesis
    by (simp add: axis_points_def sorted_wrt_map del: upt_Suc)
qed

lemma make_lists_half2:
  "make_lists 2 (Scalar (1/2)) = Inr [[1/2, 1/2], [1/2, 1], [1, 1/2], [1, 1]]"
  by (simp add: make_lists_def step_sizes_def axis_points_def upt_rec numeral_2_eq_2)


text \<open>
  C2: for every dimensionality \<open>D \<ge> 1\<close> and every step size configuration, a uniform
  scalar or a length-\<open>D\<close> sequence of scalars, each in \<open>(0, 1]\<close>, the Grid Enumerator
  returns the ordered cartesian product of the per-dimension points
  \<open>s, 2 * s, ..., floor (1 / s) * s\<close>: the count is the product of the \<open>floor (1 / s)\<close>
  (\<open>floor (1 / s) ^ D\<close> for a uniform step), the coordinates are exactly the
  \<open>D\<close>-sequences of such values, and the sequence is strictly increasing in the
  lexicographic order whose first dimension is the most significant; \<open>D = 2\<close> with
  uniform step \<open>0.5\<close> yields \<open>(0.5, 0.5), (0.5, 1.0), (1.0, 0.5), (1.0, 1.0)\<close>.
\<close>

theorem make_lists_ordered_product:
  assumes D: "1 \<le> D"
    and cfg: "(st = Scalar x \<and> xs = replicate D x) \<or> (st = PerDim xs \<and> length xs = D)"
    and rng: "\<forall>y\<in>set xs. 0 < y \<and> y \<le> 1"
  shows "\<exists>cs. make_lists D st = Inr cs
     \<and> length cs = prod_list (map (\<lambda>y. nat \<lfloor>1 / y\<rfloor>) xs)
     \<and> (st = Scalar x \<longrightarrow> length cs = nat \<lfloor>1 / x\<rfloor> ^ D)
     \<and> set cs = {c. length c = D \<and>
           (\<forall>d<D. \<exists>k. 1 \<le> k \<and> k \<le> nat \<lfloor>1 / xs ! d\<rfloor> \<and> c ! d = real k * xs ! d)}
     \<and> sorted_wrt lex_less cs
     \<and> make_lists 2 (Scalar (1/2)) = Inr [[1/2, 1/2], [1/2, 1], [1, 1/2], [1, 1]]"
proof -
  let ?cs = "cartesian (map axis_points xs)"
  from cfg have len: "length xs = D" and ss: "step_sizes D st = Inr xs"
    by (auto simp: step_sizes_def)
  from rng have ok: "\<not> list_ex (\<lambda>y. y \<le> 0 \<or> 1 < y) xs"
    by (auto simp: list_ex_iff)
  from ss ok have run: "make_lists D st = Inr ?cs"
    by (simp add: make_lists_def)
  have count: "length ?cs = prod_list (map (\<lambda>y. nat \<lfloor>1 / y\<rfloor>) xs)"
    by (simp add: length_cartesian comp_def length_axis_points)
  have uniform: "st = Scalar x \<longrightarrow> length ?cs = nat \<lfloor>1 / x\<rfloor> ^ D"
  proof
    assume "st = Scalar x"
    with cfg have "xs = replicate D x" by simp
    with count show "length ?cs = nat \<lfloor>1 / x\<rfloor> ^ D" by simp
  qed
  have members: "set ?cs = {c. length c = D \<and>
           (\<forall>d<D. \<exists>k. 1 \<le> k \<and> k \<le> nat \<lfloor>1 / xs ! d\<rfloor> \<and> c ! d = real k * xs ! d)}"
    unfolding set_cartesian using len by (auto simp: set_axis_points)
  have "\<forall>ys\<in>set (map axis_points xs). sorted_wrt (<) ys"
    using rng by (auto simp: sorted_axis_points)
  then have order: "sorted_wrt lex_less ?cs"
    by (rule sorted_cartesian)
  from run count uniform members order make_lists_half2 show ?thesis
    by blast
qed

theorem make_lists_ordered_product_witness:
  "\<exists>cs. make_lists 2 (PerDim [1/2, 1]) = Inr cs \<and> length cs = 2 \<and> sorted_wrt lex_less cs"
proof -
  have d: "(1::nat) \<le> 2" by simp
  have cfg: "(PerDim [1/2, 1] = Scalar 1 \<and> [1/2, 1] = replicate 2 (1::real))
      \<or> (PerDim [1/2, 1] = PerDim [1/2, 1] \<and> length [1/2, 1::real] = 2)" by simp
  have rng: "\<forall>y\<in>set [1/2, 1::real]. 0 < y \<and> y \<le> 1" by simp
  from make_lists_ordered_product [OF d cfg rng]
  obtain cs where "make_lists 2 (PerDim [1/2, 1]) = Inr cs"
    and "length cs = prod_list (map (\<lambda>y. nat \<lfloor>1 / y\<rfloor>) [1/2, 1::real])"
    and "sorted_wrt lex_less cs"
    by blast
  then show ?thesis by simp
qed

section \<open>Properties of Job\<close>

text \<open>
  C3: for every job, \<open>perform\<close> builds a composite model holding only the base model
  and fits it with the baseline search against the job's analysis, then builds a
  composite model holding the perturbation model and the base model and fits it with
  the perturbed search against the same analysis, and returns the job result that
  pairs exactly these two fit results, the baseline first.
\<close>

theorem perform_pairs_two_fits:
  assumes base: "fit (Job.search j) [(''model'', Job.model j)] (analysis j) = Inr r"
    and pert: "fit (perturbed_search j)
                 [(''perturbation'', Job.perturbation_model j), (''model'', Job.model j)]
                 (analysis j) = Inr pr"
  shows "perform fit j = Inr \<lparr>result = r, perturbed_result = pr\<rparr>"
  using base pert by (simp add: perform_def JobResult_init_def)

theorem perform_pairs_two_fits_witness:
  "perform fit_ex (Job_init (1/2) model_ex (perturbation_ex 1 []) search_ex)
     = Inr \<lparr>result = \<lparr>log_likelihood = 3/2\<rparr>, perturbed_result = \<lparr>log_likelihood = 5/2\<rparr>\<rparr>"
proof -
  let ?j = "Job_init (1/2 :: real) model_ex (perturbation_ex 1 []) search_ex"
  have base: "fit_ex (Job.search ?j) [(''model'', Job.model ?j)] (analysis ?j)
      = Inr \<lparr>log_likelihood = 3/2\<rparr>"
    by (simp add: fit_ex_def Job_init_sel)
  have pert: "fit_ex (perturbed_search ?j)
        [(''perturbation'', Job.perturbation_model ?j), (''model'', Job.model ?j)] (analysis ?j)
      = Inr \<lparr>log_likelihood = 5/2\<rparr>"
    by (simp add: fit_ex_def Job_init_sel)
  show ?thesis by (rule perform_pairs_two_fits [where fit = fit_ex, OF base pert])
qed

text \<open>
  C10: for every job the orchestrator builds for a grid coordinate with label \<open>L\<close>, the
  baseline search's paths have the name
  \<^verbatim>\<open>{template name}/{template tag}/{template non_linear_tag}/{L}\<close> and the template's
  tag, path prefix and file-removal flag, and the perturbed search's paths equal the
  baseline's in every field but the tag, which is the baseline tag followed by
  \<^verbatim>\<open>[perturbed]\<close>.
\<close>

theorem job_paths_from_template:
  assumes jobs: "make_jobs mk str nlt s = Inr jobs"
    and lbls: "labels mk str s = Inr ls"
    and i: "i < length jobs"
  shows "length ls = length jobs
     \<and> paths (Job.search (jobs ! i)) =
         \<lparr>name = name (paths (Sensitivity.search s)) @ ''/'' @ tag (paths (Sensitivity.search s))
                  @ ''/'' @ nlt (paths (Sensitivity.search s)) @ ''/'' @ ls ! i,
          tag = tag (paths (Sensitivity.search s)),
          path_prefix = path_prefix (paths (Sensitivity.search s)),
          remove_files = remove_files (paths (Sensitivity.search s))\<rparr>
     \<and> paths (perturbed_search (jobs ! i)) =
         (paths (Job.search (jobs ! i)))
           \<lparr>tag := tag (paths (Job.search (jobs ! i))) @ ''[perturbed]''\<rparr>"
proof -
  from lbls obtain cs where cs: "lists' mk s = Inr cs"
    by (cases "lists' mk s") (simp_all add: labels_def)
  from cs lbls have ls: "ls = map (label str (prior_tuples (Sensitivity.perturbation_model s))) cs"
    by (simp add: labels_Inr)
  from jobs i show ?thesis
    unfolding make_jobs_Inr [OF cs] ls
    by (auto simp: Job_init_sel search_instance_def Let_def copy_with_paths_def name_path_for_def)
qed

theorem job_paths_from_template_witness:
  "\<exists>jobs ls.
     make_jobs make_lists str_ex nlt_ex
       (sens_ex 1 [(''x'', linear_prior 0 2)] (Scalar (1/2)) 2) = Inr jobs
     \<and> labels make_lists str_ex (sens_ex 1 [(''x'', linear_prior 0 2)] (Scalar (1/2)) 2) = Inr ls
     \<and> 1 < length jobs
     \<and> ls ! 1 = ''x_2.0''
     \<and> paths (Job.search (jobs ! 1)) =
         \<lparr>name = ''phase/tag/settings/x_2.0'', tag = ''tag'', path_prefix = ''prefix'',
          remove_files = False\<rparr>
     \<and> paths (perturbed_search (jobs ! 1)) =
         \<lparr>name = ''phase/tag/settings/x_2.0'', tag = ''tag[perturbed]'', path_prefix = ''prefix'',
          remove_files = False\<rparr>"
proof -
  let ?s = "sens_ex 1 [(''x'', linear_prior 0 2)] (Scalar (1/2)) 2"
  obtain jobs where jobs: "make_jobs make_lists str_ex nlt_ex ?s = Inr jobs"
    and len: "length jobs = 2"
    using make_jobs_Inr [OF lists_ex, of str_ex nlt_ex "[(''x'', linear_prior 0 2)]" 2] by simp
  have lbls: "labels make_lists str_ex ?s = Inr [''x_1.0'', ''x_2.0'']"
    using labels_Inr [OF lists_ex, of str_ex "[(''x'', linear_prior 0 2)]" 2]
    by (simp add: sens_ex_def Sensitivity_init_def perturbation_ex_def label_ex_linear)
  from len have i: "1 < length jobs" by simp
  from job_paths_from_template [OF jobs lbls i] jobs lbls i show ?thesis
    by (simp add: sens_ex_def Sensitivity_init_def search_ex_def nlt_ex_def)
qed

section \<open>Properties of the run\<close>

text \<open>
  C1 as stated fails: with two coordinates and an executor that yields the results in
  reverse order of submission, the run returns the result of the second coordinate's job first: the
  result at index 0 is not the one of the job at index 0.
\<close>

theorem run_reversed_executor_counterexample:
  "run (executor_reversed fit_ex) make_lists str_ex nlt_ex
       (sens_ex 1 [(''x'', linear_prior 0 2)] (Scalar (1/2)) 2)
     = Inr [\<lparr>result = \<lparr>log_likelihood = 2\<rparr>, perturbed_result = \<lparr>log_likelihood = 3\<rparr>\<rparr>,
            \<lparr>result = \<lparr>log_likelihood = 3/2\<rparr>, perturbed_result = \<lparr>log_likelihood = 5/2\<rparr>\<rparr>]
   \<and> map_sum id (map (perform fit_ex))
       (make_jobs make_lists str_ex nlt_ex
          (sens_ex 1 [(''x'', linear_prior 0 2)] (Scalar (1/2)) 2))
     = Inr [Inr \<lparr>result = \<lparr>log_likelihood = 3/2\<rparr>, perturbed_result = \<lparr>log_likelihood = 5/2\<rparr>\<rparr>,
            Inr \<lparr>result = \<lparr>log_likelihood = 2\<rparr>, perturbed_result = \<lparr>log_likelihood = 3\<rparr>\<rparr>]"
  by (simp add: run_is_executor_outcome executor_reversed_def Process_run_jobs_def cores_ex jobs_ex
        perform_ex)

text \<open>
  C1 (amended): in every run in which the executor yields one job result per submitted
  job, the returned list is exactly the sequence the executor yields, in the order it
  yields it: its length is the number of grid coordinates, and the result at index
  \<open>i\<close> is the result of the job built for the coordinate whose job the executor
  yielded at position \<open>i\<close>. It is the result for the coordinate at index \<open>i\<close> of the
  enumeration whenever the executor yields in submission order; the run does not
  restore that order itself. Here \<open>order ! i\<close> is the submission index of the job
  yielded at position \<open>i\<close>.
\<close>

theorem run_returns_executor_sequence:
  assumes cs: "lists' mk s = Inr cs"
    and jobs: "make_jobs mk str nlt s = Inr jobs"
    and once: "mset order = mset [0..<length jobs]"
    and yielded: "run_jobs (Inr jobs) (number_of_cores s) = Inr ys"
    and completion: "map Inr ys = map (\<lambda>k. perform fit (jobs ! k)) order"
  shows "run run_jobs mk str nlt s = Inr ys
     \<and> length ys = length cs
     \<and> (\<forall>i<length cs. order ! i < length cs \<and>
          Inr (ys ! i) =
            perform fit
              (Job_init
                 (analysis_class s (image_function s
                    [(''model'', instance' s),
                     (''perturbation'',
                      instance_from_unit_vector (Sensitivity.perturbation_model s)
                        (cs ! (order ! i)))]))
                 (Sensitivity.model s) (Sensitivity.perturbation_model s)
                 (search_instance s
                    (name_path_for nlt (paths (Sensitivity.search s))
                       (label str (prior_tuples (Sensitivity.perturbation_model s))
                          (cs ! (order ! i)))))))
     \<and> (order = [0..<length cs] \<longrightarrow>
          (\<forall>i<length cs.
             Inr (ys ! i) =
               perform fit
                 (Job_init
                    (analysis_class s (image_function s
                       [(''model'', instance' s),
                        (''perturbation'',
                         instance_from_unit_vector (Sensitivity.perturbation_model s) (cs ! i))]))
                    (Sensitivity.model s) (Sensitivity.perturbation_model s)
                    (search_instance s
                       (name_path_for nlt (paths (Sensitivity.search s))
                          (label str (prior_tuples (Sensitivity.perturbation_model s))
                             (cs ! i)))))))"
proof -
  let ?job = "\<lambda>c. Job_init
      (analysis_class s (image_function s
         [(''model'', instance' s),
          (''perturbation'', instance_from_unit_vector (Sensitivity.perturbation_model s) c)]))
      (Sensitivity.model s) (Sensitivity.perturbation_model s)
      (search_instance s
         (name_path_for nlt (paths (Sensitivity.search s))
            (label str (prior_tuples (Sensitivity.perturbation_model s)) c)))"
  have ret: "run run_jobs mk str nlt s = Inr ys"
    using jobs yielded by (simp add: run_is_executor_outcome)
  from jobs have js: "jobs = map ?job cs"
    by (simp add: make_jobs_Inr [OF cs])
  then have lj: "length jobs = length cs"
    by simp
  from once have "size (mset order) = size (mset [0..<length jobs])"
    by simp
  then have lo: "length order = length cs"
    using lj by simp
  from completion have "length (map Inr ys :: (error + JobResult) list)
      = length (map (\<lambda>k. perform fit (jobs ! k)) order)"
    by simp
  then have ly: "length ys = length cs"
    using lo by simp
  from once have "set order = set [0..<length jobs]"
    by (rule mset_eq_setD)
  then have inb: "\<And>i. i < length cs \<Longrightarrow> order ! i < length cs"
    using lo lj by (metis atLeastLessThan_iff nth_mem set_upt)
  have at: "\<And>i. i < length cs \<Longrightarrow> Inr (ys ! i) = perform fit (?job (cs ! (order ! i)))"
  proof -
    fix i assume i: "i < length cs"
    from completion have "map Inr ys ! i = map (\<lambda>k. perform fit (jobs ! k)) order ! i"
      by simp
    with i lo ly have "Inr (ys ! i) = perform fit (jobs ! (order ! i))"
      by simp
    with inb [OF i] js show "Inr (ys ! i) = perform fit (?job (cs ! (order ! i)))"
      by simp
  qed
  have general: "\<forall>i<length cs. order ! i < length cs \<and>
      Inr (ys ! i) = perform fit (?job (cs ! (order ! i)))"
    using inb at by blast
  have in_order: "order = [0..<length cs] \<longrightarrow>
      (\<forall>i<length cs. Inr (ys ! i) = perform fit (?job (cs ! i)))"
  proof (intro impI allI)
    fix i assume o: "order = [0..<length cs]" and i: "i < length cs"
    from o i have "order ! i = i" by simp
    with at [OF i] show "Inr (ys ! i) = perform fit (?job (cs ! i))" by simp
  qed
  from ret ly general in_order show ?thesis by blast
qed

theorem run_returns_executor_sequence_witness:
  "run (executor_in_order fit_ex) make_lists str_ex nlt_ex
       (sens_ex 1 [(''x'', linear_prior 0 2)] (Scalar (1/2)) 2)
     = Inr [\<lparr>result = \<lparr>log_likelihood = 3/2\<rparr>, perturbed_result = \<lparr>log_likelihood = 5/2\<rparr>\<rparr>,
            \<lparr>result = \<lparr>log_likelihood = 2\<rparr>, perturbed_result = \<lparr>log_likelihood = 3\<rparr>\<rparr>]
   \<and> run (executor_reversed fit_ex) make_lists str_ex nlt_ex
       (sens_ex 1 [(''x'', linear_prior 0 2)] (Scalar (1/2)) 2)
     = Inr [\<lparr>result = \<lparr>log_likelihood = 2\<rparr>, perturbed_result = \<lparr>log_likelihood = 3\<rparr>\<rparr>,
            \<lparr>result = \<lparr>log_likelihood = 3/2\<rparr>, perturbed_result = \<lparr>log_likelihood = 5/2\<rparr>\<rparr>]"
proof -
  let ?pts = "[(''x'', linear_prior 0 2)]"
  let ?s = "sens_ex (Suc 0) ?pts (Scalar (1/2)) 2"
  let ?r0 = "\<lparr>result = \<lparr>log_likelihood = 3/2\<rparr>, perturbed_result = \<lparr>log_likelihood = 5/2\<rparr>\<rparr>"
  let ?r1 = "\<lparr>result = \<lparr>log_likelihood = 2\<rparr>, perturbed_result = \<lparr>log_likelihood = 3\<rparr>\<rparr>"
  let ?jobs = "[Job_init (1/2) model_ex (perturbation_ex (Suc 0) ?pts)
            (search_instance ?s (name_path_for nlt_ex (paths search_ex) (label str_ex ?pts [1/2]))),
          Job_init 1 model_ex (perturbation_ex (Suc 0) ?pts)
            (search_instance ?s (name_path_for nlt_ex (paths search_ex) (label str_ex ?pts [1])))]"
  have cs: "lists' make_lists ?s = Inr [[1/2], [1]]"
    by (rule lists_ex)
  have jobs: "make_jobs make_lists str_ex nlt_ex ?s = Inr ?jobs"
    by (rule jobs_ex)
  have n: "number_of_cores ?s = 2"
    by (simp add: sens_ex_def Sensitivity_init_def)
  have once: "mset [0, Suc 0] = mset [0..<length ?jobs]"
    by (simp add: upt_rec)
  have once': "mset [Suc 0, 0] = mset [0..<length ?jobs]"
    by (simp add: upt_rec)
  have yielded: "executor_in_order fit_ex (Inr ?jobs) (number_of_cores ?s) = Inr [?r0, ?r1]"
    by (simp add: n executor_in_order_def Process_run_jobs_def perform_ex)
  have yielded': "executor_reversed fit_ex (Inr ?jobs) (number_of_cores ?s) = Inr [?r1, ?r0]"
    by (simp add: n executor_reversed_def Process_run_jobs_def perform_ex)
  have completion: "map Inr [?r0, ?r1] = map (\<lambda>k. perform fit_ex (?jobs ! k)) [0, Suc 0]"
    by (simp add: perform_ex)
  have completion': "map Inr [?r1, ?r0] = map (\<lambda>k. perform fit_ex (?jobs ! k)) [Suc 0, 0]"
    by (simp add: perform_ex)
  note w = run_returns_executor_sequence
    [where run_jobs = "executor_in_order fit_ex" and fit = fit_ex,
     OF cs jobs once yielded completion]
  note w' = run_returns_executor_sequence
    [where run_jobs = "executor_reversed fit_ex" and fit = fit_ex,
     OF cs jobs once' yielded' completion']
  from w have a: "run (executor_in_order fit_ex) make_lists str_ex nlt_ex ?s = Inr [?r0, ?r1]"
    by (rule conjunct1)
  from w' have b: "run (executor_reversed fit_ex) make_lists str_ex nlt_ex ?s = Inr [?r1, ?r0]"
    by (rule conjunct1)
  from a b show ?thesis by simp
qed

text \<open>
  C7: whenever a run is configured with an invalid step size (a per-dimension step size
  \<open>\<le> 0\<close> or \<open>> 1\<close>) or with a worker count below 2, running it fails with a
  configuration error before any job is constructed or dispatched: for a worker count
  below 2 the executor fails whatever the job generator is, without advancing it; for
  an invalid step size the job generator fails on its first step, so that it yields no
  job.
\<close>

theorem invalid_configuration_fails_fast:
  assumes invalid:
    "(step_sizes (prior_count (Sensitivity.perturbation_model s)) (step_size s) = Inr xs
        \<and> (\<exists>x\<in>set xs. x \<le> 0 \<or> 1 < x))
     \<or> number_of_cores s < 2"
  shows "run (Process_run_jobs completion fit) make_lists str nlt s = Inl ConfigurationError
     \<and> (number_of_cores s < 2 \<longrightarrow>
          Process_run_jobs completion fit gen (number_of_cores s) = Inl ConfigurationError)
     \<and> (step_sizes (prior_count (Sensitivity.perturbation_model s)) (step_size s) = Inr xs
          \<and> (\<exists>x\<in>set xs. x \<le> 0 \<or> 1 < x) \<longrightarrow>
          make_jobs make_lists str nlt s = Inl ConfigurationError)"
proof -
  have few: "Process_run_jobs completion fit g (number_of_cores s) = Inl ConfigurationError"
    if "number_of_cores s < 2" for g
    using that by (simp add: Process_run_jobs_def)
  have step: "make_jobs make_lists str nlt s = Inl ConfigurationError"
    if "step_sizes (prior_count (Sensitivity.perturbation_model s)) (step_size s) = Inr xs
        \<and> (\<exists>x\<in>set xs. x \<le> 0 \<or> 1 < x)"
  proof -
    from that have "lists' make_lists s = Inl ConfigurationError"
      by (auto simp: lists'_def make_lists_def list_ex_iff)
    then show ?thesis by (rule make_jobs_Inl)
  qed
  have "run (Process_run_jobs completion fit) make_lists str nlt s = Inl ConfigurationError"
  proof (cases "number_of_cores s < 2")
    case True
    then show ?thesis by (simp add: run_is_executor_outcome few)
  next
    case False
    with invalid step have "make_jobs make_lists str nlt s = Inl ConfigurationError"
      by blast
    then show ?thesis by (simp add: run_is_executor_outcome Process_run_jobs_def)
  qed
  with few step show ?thesis by blast
qed

theorem invalid_configuration_fails_fast_witness:
  "run (Process_run_jobs (\<lambda>jobs. jobs) fit_ex) make_lists str_ex nlt_ex
       (sens_ex 1 [(''x'', linear_prior 0 2)] (Scalar (1/2)) 1) = Inl ConfigurationError
   \<and> run (Process_run_jobs (\<lambda>jobs. jobs) fit_ex) make_lists str_ex nlt_ex
       (sens_ex 1 [(''x'', linear_prior 0 2)] (Scalar 2) 2) = Inl ConfigurationError
   \<and> make_jobs make_lists str_ex nlt_ex (sens_ex 1 [(''x'', linear_prior 0 2)] (Scalar 2) 2)
     = (Inl ConfigurationError :: error + (real list, real) Job list)"
proof -
  let ?pts = "[(''x'', linear_prior 0 2)]"
  let ?few = "sens_ex 1 ?pts (Scalar (1/2)) 1"
  let ?wide = "sens_ex 1 ?pts (Scalar 2) 2"
  have few: "(step_sizes (prior_count (Sensitivity.perturbation_model ?few)) (step_size ?few)
        = Inr [1/2] \<and> (\<exists>x\<in>set [1/2::real]. x \<le> 0 \<or> 1 < x))
      \<or> number_of_cores ?few < 2"
    by (simp add: sens_ex_def Sensitivity_init_def)
  have wide_step: "step_sizes (prior_count (Sensitivity.perturbation_model ?wide)) (step_size ?wide)
        = Inr [2] \<and> (\<exists>x\<in>set [2::real]. x \<le> 0 \<or> 1 < x)"
    by (simp add: sens_ex_def Sensitivity_init_def perturbation_ex_def step_sizes_def)
  then have wide: "(step_sizes (prior_count (Sensitivity.perturbation_model ?wide)) (step_size ?wide)
        = Inr [2] \<and> (\<exists>x\<in>set [2::real]. x \<le> 0 \<or> 1 < x))
      \<or> number_of_cores ?wide < 2"
    by (rule disjI1)
  note a = invalid_configuration_fails_fast
    [where completion = "\<lambda>jobs. jobs" and fit = fit_ex and str = str_ex and nlt = nlt_ex, OF few]
  note b = invalid_configuration_fails_fast
    [where completion = "\<lambda>jobs. jobs" and fit = fit_ex and str = str_ex and nlt = nlt_ex, OF wide]
  from a have 1: "run (Process_run_jobs (\<lambda>jobs. jobs) fit_ex) make_lists str_ex nlt_ex ?few
      = Inl ConfigurationError"
    by (rule conjunct1)
  from b have 2: "run (Process_run_jobs (\<lambda>jobs. jobs) fit_ex) make_lists str_ex nlt_ex ?wide
      = Inl ConfigurationError"
    by (rule conjunct1)
  from b wide_step have 3: "make_jobs make_lists str_ex nlt_ex ?wide = Inl ConfigurationError"
    by blast
  from 1 2 3 show ?thesis by (intro conjI)
qed

section \<open>Output namespaces\<close>




text \<open>
  C8 as stated fails: the two coordinates of this run yield the same label, and the run
  returns both job results; no error is raised.
\<close>

theorem colliding_labels_run_counterexample:
  "lists' make_lists (sens_ex 1 [(''x'', linear_prior 3 3)] (Scalar (1/2)) 2) = Inr [[1/2], [1]]
   \<and> labels make_lists str_ex (sens_ex 1 [(''x'', linear_prior 3 3)] (Scalar (1/2)) 2)
     = Inr [''x_3.0'', ''x_3.0'']
   \<and> run (executor_in_order fit_ex) make_lists str_ex nlt_ex
       (sens_ex 1 [(''x'', linear_prior 3 3)] (Scalar (1/2)) 2)
     = Inr [\<lparr>result = \<lparr>log_likelihood = 3/2\<rparr>, perturbed_result = \<lparr>log_likelihood = 5/2\<rparr>\<rparr>,
            \<lparr>result = \<lparr>log_likelihood = 2\<rparr>, perturbed_result = \<lparr>log_likelihood = 3\<rparr>\<rparr>]"
  by (simp add: lists_ex labels_Inr [OF lists_ex] run_is_executor_outcome executor_in_order_def Process_run_jobs_def
        jobs_ex perform_ex)
     (simp add: sens_ex_def Sensitivity_init_def perturbation_ex_def label_ex_const)

text \<open>
  C8 (amended): if two grid coordinates of a run yield the same label, the run does not
  detect it: it raises no error of its own, still builds one job per coordinate and
  hands them to the executor, and the two jobs get identical baseline paths and
  identical perturbed paths.
\<close>

theorem colliding_labels_go_undetected:
  assumes cs: "lists' mk s = Inr cs"
    and i: "i < length cs" and j: "j < length cs"
    and same: "label str (prior_tuples (Sensitivity.perturbation_model s)) (cs ! i)
               = label str (prior_tuples (Sensitivity.perturbation_model s)) (cs ! j)"
  shows "\<exists>jobs. make_jobs mk str nlt s = Inr jobs \<and> length jobs = length cs
     \<and> paths (Job.search (jobs ! i)) = paths (Job.search (jobs ! j))
     \<and> paths (perturbed_search (jobs ! i)) = paths (perturbed_search (jobs ! j))
     \<and> run run_jobs mk str nlt s = run_jobs (Inr jobs) (number_of_cores s)"
  using i j same
  by (simp add: run_is_executor_outcome make_jobs_Inr [OF cs] Job_init_sel search_instance_paths)

theorem colliding_labels_go_undetected_witness:
  "\<exists>jobs. make_jobs make_lists str_ex nlt_ex
            (sens_ex 1 [(''x'', linear_prior 3 3)] (Scalar (1/2)) 2) = Inr jobs
     \<and> length jobs = 2
     \<and> paths (Job.search (jobs ! 0)) = paths (Job.search (jobs ! 1))
     \<and> paths (perturbed_search (jobs ! 0)) = paths (perturbed_search (jobs ! 1))
     \<and> run (executor_in_order fit_ex) make_lists str_ex nlt_ex
          (sens_ex 1 [(''x'', linear_prior 3 3)] (Scalar (1/2)) 2)
        = executor_in_order fit_ex (Inr jobs) 2"
proof -
  let ?s = "sens_ex (Suc 0) [(''x'', linear_prior 3 3)] (Scalar (1/2)) 2"
  have cs: "lists' make_lists ?s = Inr [[1/2], [1]]"
    by (rule lists_ex)
  have i: "0 < length [[1/2], [1::real]]" and j: "1 < length [[1/2], [1::real]]"
    by simp_all
  have same: "label str_ex (prior_tuples (Sensitivity.perturbation_model ?s)) ([[1/2], [1]] ! 0)
      = label str_ex (prior_tuples (Sensitivity.perturbation_model ?s)) ([[1/2], [1]] ! 1)"
    by (simp add: sens_ex_def Sensitivity_init_def perturbation_ex_def label_ex_const)
  have n: "number_of_cores ?s = 2"
    by (simp add: sens_ex_def Sensitivity_init_def)
  from colliding_labels_go_undetected
    [where run_jobs = "executor_in_order fit_ex" and nlt = nlt_ex, OF cs i j same]
  show ?thesis by (auto simp: n)
qed

section \<open>Properties of the Label Builder\<close>

lemma label_map:
  "label str pts vec =
     join ''_'' (map (\<lambda>(v, (path, prior)). path @ ''_'' @ str (value_for prior v)) (zip vec pts))"
  by (simp add: label_def label_strings_map)

lemma map_zip_index:
  "map f (zip vec pts) = map (\<lambda>d. f (vec ! d, pts ! d)) [0..<min (length vec) (length pts)]"
  by (rule nth_equalityI) simp_all

lemma join_concat:
  "join sep xs = (case xs of [] \<Rightarrow> [] | t # ts \<Rightarrow> t @ concat (map ((@) sep) ts))"
  by (induction sep xs rule: join.induct) simp_all

lemma label_is_label_spec:
  "label str pts vec = label_spec str (min (length vec) (length pts)) pts vec"
proof -
  have "map (\<lambda>(v, (path, prior)). path @ ''_'' @ str (value_for prior v)) (zip vec pts)
      = map (\<lambda>d. fst (pts ! d) @ [CHR ''_''] @ str (value_for (snd (pts ! d)) (vec ! d)))
          [0..<min (length vec) (length pts)]"
    unfolding map_zip_index by (simp add: case_prod_beta)
  moreover have "(@) ''_'' = ((#) CHR ''_'' :: string \<Rightarrow> string)"
    by (rule ext) simp
  ultimately show ?thesis
    by (simp add: label_map label_spec_def join_concat split: list.split)
qed

lemma label_take:
  "label str (take (min (length vec) (length pts)) pts) (take (min (length vec) (length pts)) vec)
     = label str pts vec"
proof -
  have "zip (take (min (length vec) (length pts)) vec) (take (min (length vec) (length pts)) pts)
      = take (min (length vec) (length pts)) (zip vec pts)"
    by (simp add: take_zip)
  also have "\<dots> = zip vec pts"
    by simp
  finally show ?thesis
    by (simp add: label_map)
qed

lemma join_Cons: "join sep (x # xs) = (if xs = [] then x else x @ sep @ join sep xs)"
  by (cases xs) simp_all

lemma split_at_sep:
  "c \<notin> set s \<Longrightarrow> c \<notin> set t \<Longrightarrow> s @ c # a = t @ c # b \<Longrightarrow> s = t \<and> a = b"
proof (induction s arbitrary: t)
  case Nil
  then show ?case by (cases t) auto
next
  case (Cons x s)
  then show ?case by (cases t) auto
qed

lemma join_tokens_inj:
  assumes "length ps = length ss" and "length ss = length ts"
    and "\<forall>s\<in>set ss \<union> set ts. CHR ''_'' \<notin> set s"
    and "join ''_'' (map2 (\<lambda>p s. p @ ''_'' @ s) ps ss) = join ''_'' (map2 (\<lambda>p s. p @ ''_'' @ s) ps ts)"
  shows "ss = ts"
  using assms
proof (induction ps ss ts rule: list_induct3)
  case Nil
  show ?case by simp
next
  case (Cons p ps s ss t ts)
  show ?case
  proof (cases "ps = []")
    case True
    with Cons.hyps Cons.prems show ?thesis by simp
  next
    case False
    with Cons.hyps have ne: "zip ps ss \<noteq> []" "zip ps ts \<noteq> []"
      by (cases ps, simp, cases ss, simp, simp, cases ps, simp, cases ts, simp, simp)
    from Cons.prems(2) ne
    have eq: "s @ CHR ''_'' # join ''_'' (map2 (\<lambda>p s. p @ ''_'' @ s) ps ss)
        = t @ CHR ''_'' # join ''_'' (map2 (\<lambda>p s. p @ ''_'' @ s) ps ts)"
      by (simp add: join_Cons)
    from Cons.prems(1) have ns: "CHR ''_'' \<notin> set s" and nt: "CHR ''_'' \<notin> set t"
      by simp_all
    note both = split_at_sep [OF ns nt eq]
    from both have st: "s = t" ..
    from both have rest: "join ''_'' (map2 (\<lambda>p s. p @ ''_'' @ s) ps ss)
        = join ''_'' (map2 (\<lambda>p s. p @ ''_'' @ s) ps ts)" ..
    from Cons.prems(1) have "\<forall>s\<in>set ss \<union> set ts. CHR ''_'' \<notin> set s"
      by simp
    then have "ss = ts" using rest by (rule Cons.IH)
    with st show ?thesis by simp
  qed
qed

lemma label_by_values:
  "length vec = length pts \<Longrightarrow>
   label str pts vec =
     join ''_'' (map2 (\<lambda>p s. p @ ''_'' @ s) (map fst pts) (map str (physical_values pts vec)))"
proof -
  assume "length vec = length pts"
  then have "map (\<lambda>(v, (path, prior)). path @ ''_'' @ str (value_for prior v)) (zip vec pts)
      = map2 (\<lambda>p s. p @ ''_'' @ s) (map fst pts) (map str (physical_values pts vec))"
    unfolding physical_values_def
    by (induction vec pts rule: list_induct2) (simp_all add: case_prod_beta)
  then show ?thesis by (simp add: label_map)
qed

lemma axis_points_one: "axis_points 1 = [1]"
  by (simp add: axis_points_def)

lemma labels_frame:
  "lists' mk s = lists' mk s' \<Longrightarrow>
   prior_tuples (Sensitivity.perturbation_model s) = prior_tuples (Sensitivity.perturbation_model s')
   \<Longrightarrow> labels mk str s = labels mk str s'"
  unfolding labels_def by (simp only:)

text \<open>
  C6: for every grid coordinate of the model's dimensionality, the label is the
  underscore-join, in declared dimension order, of the tokens
  \<^verbatim>\<open>"{path}_{physical_value}"\<close>, the physical value being the coordinate component passed
  through the \<^verbatim>\<open>value_for\<close> of the prior at the same position. The labels are determined
  by the coordinates and the model's pairs alone: two runs with the same coordinates
  and the same pairs yield identical labels, whatever else differs between them. Two
  coordinates whose physical values differ get different labels; here the float
  formatting, which is external, is taken to tell the occurring physical values apart
  and to produce no underscore, as Python's formatting of floats does.
\<close>

theorem label_follows_spec:
  assumes len: "length vec = length pts" and len': "length vec' = length pts"
    and inj: "inj_on str (set (physical_values pts vec) \<union> set (physical_values pts vec'))"
    and plain: "\<forall>v\<in>set (physical_values pts vec) \<union> set (physical_values pts vec').
                  CHR ''_'' \<notin> set (str v)"
  shows "label str pts vec = label_spec str (length pts) pts vec
     \<and> (lists' mk s = lists' mk s'
          \<and> prior_tuples (Sensitivity.perturbation_model s)
              = prior_tuples (Sensitivity.perturbation_model s')
          \<longrightarrow> labels mk str s = labels mk str s')
     \<and> (physical_values pts vec \<noteq> physical_values pts vec' \<longrightarrow>
          label str pts vec \<noteq> label str pts vec')"
proof -
  have spec: "label str pts vec = label_spec str (length pts) pts vec"
    using label_is_label_spec [of str pts vec] len by simp
  have frame: "lists' mk s = lists' mk s'
      \<and> prior_tuples (Sensitivity.perturbation_model s)
          = prior_tuples (Sensitivity.perturbation_model s')
      \<longrightarrow> labels mk str s = labels mk str s'"
    using labels_frame [of mk s s' str] by blast
  have differ: "physical_values pts vec \<noteq> physical_values pts vec' \<longrightarrow>
      label str pts vec \<noteq> label str pts vec'"
  proof (intro impI notI)
    assume ne: "physical_values pts vec \<noteq> physical_values pts vec'"
      and eq: "label str pts vec = label str pts vec'"
    have l: "length (map fst pts) = length (map str (physical_values pts vec))"
      and l': "length (map str (physical_values pts vec)) = length (map str (physical_values pts vec'))"
      using len len' by (simp_all add: physical_values_def)
    have p: "\<forall>s\<in>set (map str (physical_values pts vec)) \<union> set (map str (physical_values pts vec')).
        CHR ''_'' \<notin> set s"
      using plain by auto
    from eq have "join ''_'' (map2 (\<lambda>p s. p @ ''_'' @ s) (map fst pts) (map str (physical_values pts vec)))
        = join ''_'' (map2 (\<lambda>p s. p @ ''_'' @ s) (map fst pts) (map str (physical_values pts vec')))"
      by (simp add: label_by_values len len')
    with l l' p have "map str (physical_values pts vec) = map str (physical_values pts vec')"
      by (rule join_tokens_inj)
    with inj have "physical_values pts vec = physical_values pts vec'"
      by (simp add: inj_on_map_eq_map)
    with ne show False by contradiction
  qed
  from spec frame differ show ?thesis by blast
qed

theorem label_follows_spec_witness:
  "label str_ex [(''x'', linear_prior 0 2), (''y'', linear_prior 0 2)] [1/2, 1] = ''x_1.0_y_2.0''
   \<and> label str_ex [(''x'', linear_prior 0 2), (''y'', linear_prior 0 2)] [1, 1/2] = ''x_2.0_y_1.0''
   \<and> physical_values [(''x'', linear_prior 0 2), (''y'', linear_prior 0 2)] [1/2, 1] = [1, 2]
   \<and> physical_values [(''x'', linear_prior 0 2), (''y'', linear_prior 0 2)] [1, 1/2] = [2, 1]
   \<and> label str_ex [(''x'', linear_prior 0 2), (''y'', linear_prior 0 2)] [1/2, 1]
       \<noteq> label str_ex [(''x'', linear_prior 0 2), (''y'', linear_prior 0 2)] [1, 1/2]
   \<and> labels make_lists str_ex
       (sens_ex 2 [(''x'', linear_prior 0 2), (''y'', linear_prior 0 2)] (Scalar (1/2)) 2)
     = labels make_lists str_ex
       (sens_ex 2 [(''x'', linear_prior 0 2), (''y'', linear_prior 0 2)] (Scalar (1/2)) 4)"
proof -
  let ?pts = "[(''x'', linear_prior 0 2), (''y'', linear_prior 0 2)]"
  let ?s = "sens_ex 2 ?pts (Scalar (1/2)) 2"
  let ?s' = "sens_ex 2 ?pts (Scalar (1/2)) 4"
  have pv: "physical_values ?pts [1/2, 1] = [1, 2]" "physical_values ?pts [1, 1/2] = [2, 1]"
    by (simp_all add: physical_values_def linear_prior_def)
  have len: "length [1/2, 1::real] = length ?pts" and len': "length [1, 1/2::real] = length ?pts"
    by simp_all
  have inj: "inj_on str_ex (set (physical_values ?pts [1/2, 1]) \<union> set (physical_values ?pts [1, 1/2]))"
    by (auto simp: pv str_ex_def inj_on_def)
  have plain: "\<forall>v\<in>set (physical_values ?pts [1/2, 1]) \<union> set (physical_values ?pts [1, 1/2]).
      CHR ''_'' \<notin> set (str_ex v)"
    by (simp add: pv str_ex_def)
  note w = label_follows_spec
    [OF len len' inj plain, where mk = make_lists and s = ?s and s' = ?s']
  note w' = label_follows_spec
    [OF len' len, where str = str_ex and mk = make_lists and s = ?s and s' = ?s']
  have spec: "label_spec str_ex (length ?pts) ?pts [1/2, 1] = ''x_1.0_y_2.0''"
    by (simp add: label_spec_def upt_rec linear_prior_def str_ex_def)
  have spec': "label_spec str_ex (length ?pts) ?pts [1, 1/2] = ''x_2.0_y_1.0''"
    by (simp add: label_spec_def upt_rec linear_prior_def str_ex_def)
  have inj': "inj_on str_ex (set (physical_values ?pts [1, 1/2]) \<union> set (physical_values ?pts [1/2, 1]))"
    by (auto simp: pv str_ex_def inj_on_def)
  have plain': "\<forall>v\<in>set (physical_values ?pts [1, 1/2]) \<union> set (physical_values ?pts [1/2, 1]).
      CHR ''_'' \<notin> set (str_ex v)"
    by (simp add: pv str_ex_def)
  from w spec have a: "label str_ex ?pts [1/2, 1] = ''x_1.0_y_2.0''"
    by (simp only:)
  from w' [OF inj' plain'] spec' have b: "label str_ex ?pts [1, 1/2] = ''x_2.0_y_1.0''"
    by (simp only:)
  have ne: "physical_values ?pts [1/2, 1] \<noteq> physical_values ?pts [1, 1/2]"
    by (simp add: pv)
  from w ne have c: "label str_ex ?pts [1/2, 1] \<noteq> label str_ex ?pts [1, 1/2]"
    by blast
  have same: "lists' make_lists ?s = lists' make_lists ?s'
      \<and> prior_tuples (Sensitivity.perturbation_model ?s)
          = prior_tuples (Sensitivity.perturbation_model ?s')"
    by (simp add: lists'_def sens_ex_def Sensitivity_init_def)
  from w same have d: "labels make_lists str_ex ?s = labels make_lists str_ex ?s'"
    by blast
  from a b pv c d show ?thesis
    by (intro conjI)
qed

text \<open>
  C9: given a grid coordinate whose length differs from the number of the perturbation
  model's (path, prior) pairs, the Label Builder raises no error: it builds the label
  from the first \<open>min (coordinate length) (number of pairs)\<close> dimension pairs only and
  ignores the excess components or pairs; whenever the enumerator yields coordinates,
  a label is yielded for each of them.
\<close>

theorem label_ignores_excess:
  assumes mismatch: "length vec \<noteq> length pts"
  shows "label str pts vec = label_spec str (min (length vec) (length pts)) pts vec
     \<and> label str pts vec =
         label str (take (min (length vec) (length pts)) pts)
           (take (min (length vec) (length pts)) vec)
     \<and> (lists' mk s = Inr cs \<longrightarrow>
          labels mk str s
            = Inr (map (label str (prior_tuples (Sensitivity.perturbation_model s))) cs))"
  by (simp add: label_is_label_spec [symmetric] label_take labels_Inr)

theorem label_ignores_excess_witness:
  "label str_ex [(''x'', linear_prior 0 2), (''y'', linear_prior 0 2)] [1/2, 1, 1/2]
     = ''x_1.0_y_2.0''
   \<and> label str_ex [(''x'', linear_prior 0 2), (''y'', linear_prior 0 2)] [1] = ''x_2.0''
   \<and> label str_ex [(''x'', linear_prior 0 2), (''y'', linear_prior 0 2)] [1/2, 1, 1/2]
     = label str_ex (take 2 [(''x'', linear_prior 0 2), (''y'', linear_prior 0 2)])
         (take 2 [1/2, 1, 1/2])
   \<and> labels make_lists str_ex
       (sens_ex 3 [(''x'', linear_prior 0 2), (''y'', linear_prior 0 2)] (PerDim [1, 1/2, 1]) 2)
     = Inr [''x_2.0_y_1.0'', ''x_2.0_y_2.0'']"
proof -
  let ?pts = "[(''x'', linear_prior 0 2), (''y'', linear_prior 0 2)]"
  let ?s = "sens_ex 3 ?pts (PerDim [1, 1/2, 1]) 2"
  let ?cs = "[[1, 1/2, 1], [1, 1, 1::real]]"
  have long: "length [1/2, 1, 1/2::real] \<noteq> length ?pts"
    by simp
  have short: "length [1::real] \<noteq> length ?pts"
    by simp
  have cs: "lists' make_lists ?s = Inr ?cs"
    by (simp add: lists'_def sens_ex_def Sensitivity_init_def perturbation_ex_def make_lists_def
        step_sizes_def axis_points_half axis_points_one)
  have m: "min (length [1/2, 1, 1/2::real]) (length ?pts) = 2"
    and m': "min (length [1::real]) (length ?pts) = 1"
    by simp_all
  have spec: "label_spec str_ex 2 ?pts [1/2, 1, 1/2] = ''x_1.0_y_2.0''"
    by (simp add: label_spec_def upt_rec numeral_2_eq_2 linear_prior_def str_ex_def)
  have spec': "label_spec str_ex 1 ?pts [1] = ''x_2.0''"
    by (simp add: label_spec_def linear_prior_def str_ex_def)
  have vals: "map (label str_ex ?pts) ?cs = [''x_2.0_y_1.0'', ''x_2.0_y_2.0'']"
    by (simp add: label_map linear_prior_def str_ex_def)
  note w = label_ignores_excess
    [OF long, where str = str_ex and mk = make_lists and s = ?s and cs = ?cs]
  note w' = label_ignores_excess
    [OF short, where str = str_ex and mk = make_lists and s = ?s and cs = ?cs]
  from w have "label str_ex ?pts [1/2, 1, 1/2] = label_spec str_ex 2 ?pts [1/2, 1, 1/2]"
    unfolding m by (rule conjunct1)
  with spec have a: "label str_ex ?pts [1/2, 1, 1/2] = ''x_1.0_y_2.0''"
    by (simp only:)
  from w' have "label str_ex ?pts [1] = label_spec str_ex 1 ?pts [1]"
    unfolding m' by (rule conjunct1)
  with spec' have b: "label str_ex ?pts [1] = ''x_2.0''"
    by (simp only:)
  from w have c: "label str_ex ?pts [1/2, 1, 1/2]
      = label str_ex (take 2 ?pts) (take 2 [1/2, 1, 1/2])"
    unfolding m by (rule conjunct2 [THEN conjunct1])
  have pm: "prior_tuples (Sensitivity.perturbation_model ?s) = ?pts"
    by (simp add: sens_ex_def Sensitivity_init_def perturbation_ex_def)
  from w cs have "labels make_lists str_ex ?s
      = Inr (map (label str_ex (prior_tuples (Sensitivity.perturbation_model ?s))) ?cs)"
    by blast
  then have "labels make_lists str_ex ?s = Inr (map (label str_ex ?pts) ?cs)"
    unfolding pm .
  then have d: "labels make_lists str_ex ?s = Inr [''x_2.0_y_1.0'', ''x_2.0_y_2.0'']"
    unfolding vals .
  from a b c d show ?thesis
    by (intro conjI)
qed

end
